theory Spec2Isabelle
  imports Main "HOL-Library.Word" "HOL-Library.Sublist"
begin

section \<open>The video recorder component and the storage client\<close>

text \<open>
  A shallow embedding of \<^verbatim>\<open>src/components/VideoRecorder.tsx\<close> and
  \<^verbatim>\<open>src/utils/supabaseClient.ts\<close>. The component's refs and state hooks are the
  fields of one record; every handler is a function from state to state. What the
  browser and the storage service answer (the outcome of getUserMedia, of the
  MediaRecorder constructor and of its start method, of the storage write, the identifier
  that uuidv4 draws, the URL that getPublicUrl builds) is an argument of the handler that
  asks for it, so a handler is modelled for every answer it can get.
\<close>

subsection \<open>Blobs\<close>

type_synonym byte = "8 word"

record blob =
  blob_bytes :: "byte list"
  blob_type :: string

definition blob_size :: "blob \<Rightarrow> nat" where
  "blob_size b = length (blob_bytes b)"

text \<open>\<^verbatim>\<open>new Blob(parts, { type })\<close>: the parts' bytes in order, under the given type.\<close>

definition new_Blob :: "blob list \<Rightarrow> string \<Rightarrow> blob" where
  "new_Blob parts t = \<lparr>blob_bytes = concat (map blob_bytes parts), blob_type = t\<rparr>"

subsection \<open>Strings\<close>

text \<open>\<^verbatim>\<open>s.includes(pat)\<close>: \<open>pat\<close> occurs in \<open>s\<close> as a contiguous substring.\<close>

fun str_includes :: "string \<Rightarrow> string \<Rightarrow> bool" where
  "str_includes [] pat = (pat = [])"
| "str_includes (c # cs) pat = (prefix pat (c # cs) \<or> str_includes cs pat)"

text \<open>\<^verbatim>\<open>s.split(';')[0]\<close>: the part of \<open>s\<close> before its first semicolon.\<close>

definition split_first :: "string \<Rightarrow> string" where
  "split_first s = takeWhile (\<lambda>c. c \<noteq> CHR '';'') s"

definition digit :: "nat \<Rightarrow> char" where
  "digit n = ''0123456789'' ! n"

fun decimal :: "nat \<Rightarrow> string" where
  "decimal n = (if n < 10 then [digit n] else decimal (n div 10) @ [digit (n mod 10)])"

declare decimal.simps [simp del]

text \<open>
  \<^verbatim>\<open>(size / 1024 / 1024).toFixed(2)\<close>. Both divisions are by powers of two and are
  exact on a double for every size below \<open>2 ^ 53\<close>; \<^verbatim>\<open>toFixed(2)\<close> then takes the
  integer \<open>n\<close> with \<open>n / 100\<close> closest to the quotient, the larger one on a tie, and
  prints it with two decimals.
\<close>

definition megabytes_toFixed2 :: "nat \<Rightarrow> string" where
  "megabytes_toFixed2 sz =
     (let n = (200 * sz + 1048576) div 2097152
      in decimal (n div 100) @ ''.'' @ [digit ((n mod 100) div 10), digit (n mod 10)])"

subsection \<open>The component's state\<close>

text \<open>
  Streams and recorders are objects the handlers share by reference: the video element
  and every recorder's \<^verbatim>\<open>onstop\<close> closure hold the same stream, and a recorder
  outlives the ref that pointed to it. Both live in a store, addressed by their index:
  \<open>streams\<close> says of each acquired stream whether its tracks are still live, and
  \<open>recorders\<close> holds every recorder that was started.
\<close>

datatype recorder_phase = Active | Stopping | Finalized

record recorder =
  rec_stream :: nat
  rec_mimeType :: string
  rec_phase :: recorder_phase

record video_element =
  srcObject :: "nat option"

record state =
  videoRef :: "video_element option"
  mediaRecorderRef :: "nat option"
  recordedChunksRef :: "blob list"
  isRecording :: bool
  videoBlob :: "blob option"
  statusMessage :: string
  uploading :: bool
  streams :: "bool list"
  recorders :: "recorder list"

text \<open>The component after its first render: the video element is mounted, without a stream.\<close>

definition initial_state :: state where
  "initial_state =
     \<lparr>videoRef = Some \<lparr>srcObject = None\<rparr>, mediaRecorderRef = None, recordedChunksRef = [],
      isRecording = False, videoBlob = None, statusMessage = ''Ready to start recording.'',
      uploading = False, streams = [], recorders = []\<rparr>"

subsection \<open>startStream\<close>

datatype gum_outcome = Granted | Denied

text \<open>
  The continuation of \<^verbatim>\<open>startStream\<close> after \<^verbatim>\<open>getUserMedia\<close> settles (before the
  await the function changes nothing). A granted request yields a fresh live stream. The
  result is the returned stream; \<^verbatim>\<open>null\<close> and \<^verbatim>\<open>undefined\<close> are both \<open>None\<close>,
  the callers only test the result for truthiness.
\<close>

definition startStream :: "gum_outcome \<Rightarrow> state \<Rightarrow> nat option \<times> state" where
  "startStream g s =
     (case g of
        Denied \<Rightarrow> (None, s\<lparr>statusMessage := ''Error: Could not access camera and microphone.''\<rparr>)
      | Granted \<Rightarrow>
          (let sid = length (streams s);
               s1 = s\<lparr>streams := streams s @ [True]\<rparr>
           in case videoRef s1 of
                None \<Rightarrow> (None, s1)
              | Some v \<Rightarrow>
                  (Some sid,
                   s1\<lparr>videoRef := Some (v\<lparr>srcObject := Some sid\<rparr>),
                      statusMessage := ''Camera stream active. Click Record.''\<rparr>)))"

subsection \<open>startRecording\<close>

text \<open>
  What the platform answers to the try block: the constructor throws, or it returns a
  recorder whose \<^verbatim>\<open>start\<close> throws (as it does on a stream whose tracks have all
  ended), or the recorder starts and reports the given \<^verbatim>\<open>mimeType\<close>.
\<close>

datatype recorder_outcome = ConstructorThrows | StartThrows | Started string

text \<open>The try block of \<^verbatim>\<open>startRecording\<close> with its catch, on the stream \<open>sid\<close>.\<close>

definition begin_recording :: "recorder_outcome \<Rightarrow> nat \<Rightarrow> state \<Rightarrow> state" where
  "begin_recording ro sid s =
     (case ro of
        ConstructorThrows \<Rightarrow> s\<lparr>statusMessage := ''Error starting recording. Try refreshing.''\<rparr>
      | StartThrows \<Rightarrow>
          s\<lparr>recordedChunksRef := [],
            statusMessage := ''Error starting recording. Try refreshing.''\<rparr>
      | Started mt \<Rightarrow>
          s\<lparr>recordedChunksRef := [],
            recorders := recorders s @ [\<lparr>rec_stream = sid, rec_mimeType = mt, rec_phase = Active\<rparr>],
            mediaRecorderRef := Some (length (recorders s)),
            isRecording := True,
            videoBlob := None,
            statusMessage := ''Recording...''\<rparr>)"

text \<open>\<^verbatim>\<open>videoRef.current?.srcObject\<close>\<close>

definition current_stream :: "state \<Rightarrow> nat option" where
  "current_stream s = (case videoRef s of None \<Rightarrow> None | Some v \<Rightarrow> srcObject v)"

text \<open>
  When the element holds no stream, \<^verbatim>\<open>startRecording\<close> sets a status and awaits
  \<^verbatim>\<open>startStream\<close>. \<open>startRecording_await\<close> is the handler up to that await and
  \<open>startRecording_resume\<close> its continuation, on the state it finds when the stream
  request has settled.
\<close>

definition startRecording_await :: "state \<Rightarrow> state" where
  "startRecording_await s = s\<lparr>statusMessage := ''Stream not available. Retrying stream access...''\<rparr>"

definition startRecording_resume :: "gum_outcome \<Rightarrow> recorder_outcome \<Rightarrow> state \<Rightarrow> state" where
  "startRecording_resume g ro s =
     (case startStream g s of
        (None, s1) \<Rightarrow> s1
      | (Some sid, s1) \<Rightarrow> begin_recording ro sid s1)"

text \<open>
  \<^verbatim>\<open>startRecording\<close>, run to its end with no other handler in between: at once on the
  stream the element holds, or through the await.
\<close>

definition startRecording :: "gum_outcome \<Rightarrow> recorder_outcome \<Rightarrow> state \<Rightarrow> state" where
  "startRecording g ro s =
     (case current_stream s of
        Some sid \<Rightarrow> begin_recording ro sid s
      | None \<Rightarrow> startRecording_resume g ro (startRecording_await s))"

subsection \<open>The recorder's callbacks\<close>

text \<open>\<^verbatim>\<open>recorder.ondataavailable\<close>\<close>

definition ondataavailable :: "blob \<Rightarrow> state \<Rightarrow> state" where
  "ondataavailable b s =
     (if blob_size b > 0 then s\<lparr>recordedChunksRef := recordedChunksRef s @ [b]\<rparr> else s)"

text \<open>
  \<^verbatim>\<open>recorder.onstop\<close> of the recorder \<open>rid\<close>, the stop finalization: the closure reads
  its own recorder's \<^verbatim>\<open>mimeType\<close> and stops the tracks of the stream it was started on.
  The stop event is the last event of a recorder, which is \<open>Finalized\<close> afterwards.
\<close>

definition onstop :: "nat \<Rightarrow> state \<Rightarrow> state" where
  "onstop rid s =
     (if rid < length (recorders s) then
        (let r = recorders s ! rid;
             mimeType = split_first (rec_mimeType r);
             vb = new_Blob (recordedChunksRef s) mimeType
         in s\<lparr>videoBlob := Some vb,
              isRecording := False,
              statusMessage := ''Recording finished. Size: '' @ megabytes_toFixed2 (blob_size vb)
                               @ '' MB. Ready to upload.'',
              streams := (streams s)[rec_stream r := False],
              recorders := (recorders s)[rid := r\<lparr>rec_phase := Finalized\<rparr>]\<rparr>)
      else s)"

subsection \<open>stopRecording\<close>

text \<open>
  \<^verbatim>\<open>MediaRecorder.stop()\<close>: a recording recorder becomes inactive and its stop event is
  queued; on an inactive recorder the call changes nothing.
\<close>

definition recorder_stop :: "recorder \<Rightarrow> recorder" where
  "recorder_stop r = (if rec_phase r = Active then r\<lparr>rec_phase := Stopping\<rparr> else r)"

definition stopRecording :: "state \<Rightarrow> state" where
  "stopRecording s =
     (case mediaRecorderRef s of
        None \<Rightarrow> s
      | Some rid \<Rightarrow>
          if isRecording s
          then s\<lparr>recorders := (recorders s)[rid := recorder_stop (recorders s ! rid)]\<rparr>
          else s)"

subsection \<open>handleUpload\<close>

record upload_call =
  up_bucket :: string
  up_path :: string
  up_body :: blob
  up_cacheControl :: string
  up_upsert :: bool

datatype storage_error = StorageError (message: string)

text \<open>
  The awaited storage write either resolves to \<^verbatim>\<open>{ data, error }\<close>, of which the handler
  reads only \<^verbatim>\<open>error\<close>, or rejects.
\<close>

datatype upload_outcome = Resolved "storage_error option" | Rejected storage_error

text \<open>
  \<^verbatim>\<open>handleUpload\<close> up to its await: the storage call it issues, if any, with the file
  name its continuation keeps, and the state it leaves.
\<close>

definition handleUpload_begin :: "string \<Rightarrow> state \<Rightarrow> (string \<times> upload_call) option \<times> state" where
  "handleUpload_begin uuid s =
     (case videoBlob s of
        None \<Rightarrow> (None, s\<lparr>statusMessage := ''No video to upload.''\<rparr>)
      | Some vb \<Rightarrow>
          (let fileExt = (if str_includes (blob_type vb) ''webm'' then ''webm'' else ''mp4'');
               fileName = uuid @ ''.'' @ fileExt;
               filePath = ''public_videos/'' @ fileName
           in (Some (fileName,
                     \<lparr>up_bucket = ''videos'', up_path = filePath, up_body = vb,
                      up_cacheControl = ''3600'', up_upsert = False\<rparr>),
               s\<lparr>uploading := True, statusMessage := ''Uploading to Supabase...''\<rparr>)))"

definition upload_failed :: "storage_error \<Rightarrow> state \<Rightarrow> state" where
  "upload_failed e s = s\<lparr>statusMessage := ''Upload failed: '' @ message e, uploading := False\<rparr>"

text \<open>
  The continuation after the await, up to the call of \<^verbatim>\<open>startStream\<close> that ends the
  success branch. \<open>getPublicUrl bucket path\<close> is the storage client's URL for an object.
\<close>

definition handleUpload_finish ::
  "(string \<Rightarrow> string \<Rightarrow> string) \<Rightarrow> string \<Rightarrow> string \<Rightarrow> upload_outcome \<Rightarrow> state \<Rightarrow> state" where
  "handleUpload_finish getPublicUrl fileName filePath out s =
     (case out of
        Rejected e \<Rightarrow> upload_failed e s
      | Resolved (Some e) \<Rightarrow> upload_failed e s
      | Resolved None \<Rightarrow>
          (let publicURL = getPublicUrl ''videos'' filePath
           in s\<lparr>statusMessage := ''Upload successful! File: '' @ fileName @ ''. Public URL: '' @ publicURL,
                videoBlob := None,
                uploading := False\<rparr>))"

definition write_succeeded :: "upload_outcome \<Rightarrow> bool" where
  "write_succeeded out = (case out of Resolved None \<Rightarrow> True | _ \<Rightarrow> False)"


text \<open>
  \<^verbatim>\<open>handleUpload\<close>, run to its end, with the stream request of the success branch
  settled as well.
\<close>

definition handleUpload ::
  "(string \<Rightarrow> string \<Rightarrow> string) \<Rightarrow> string \<Rightarrow> upload_outcome \<Rightarrow> gum_outcome \<Rightarrow> state \<Rightarrow> state" where
  "handleUpload getPublicUrl uuid out g s =
     (case handleUpload_begin uuid s of
        (None, s1) \<Rightarrow> s1
      | (Some (fileName, call), s1) \<Rightarrow>
          (let s2 = handleUpload_finish getPublicUrl fileName (up_path call) out s1
           in if write_succeeded out then snd (startStream g s2) else s2))"

subsection \<open>The storage client\<close>

text \<open>
  \<^verbatim>\<open>supabaseClient.ts\<close>: the module reads two environment variables, each a string or
  undefined, and throws unless both are truthy; past the guard both are strings and go to
  \<^verbatim>\<open>createClient\<close>, the constructor of the storage library. The library is not part
  of the repository, so \<open>createClient\<close> is a parameter. A constructor can throw on values
  it does not take, and what it throws ends the load of the module as the module's own
  error does: its result is an error or a client.
\<close>

datatype startup_error = StartupError string

definition falsy :: "string option \<Rightarrow> bool" where
  "falsy v = (case v of None \<Rightarrow> True | Some x \<Rightarrow> x = [])"

definition supabase ::
  "(string \<Rightarrow> string \<Rightarrow> startup_error + 'c) \<Rightarrow> string option \<Rightarrow> string option
     \<Rightarrow> startup_error + 'c" where
  "supabase createClient supabaseUrl supabaseAnonKey =
     (if falsy supabaseUrl \<or> falsy supabaseAnonKey
      then Inl (StartupError ''Missing Supabase URL or Anon Key environment variables'')
      else createClient (the supabaseUrl) (the supabaseAnonKey))"

text \<open>
  Two constructors for the examples: one takes every pair of values, the other throws
  unless the endpoint begins with \<^verbatim>\<open>http://\<close> or \<^verbatim>\<open>https://\<close>.
\<close>

definition any_createClient :: "string \<Rightarrow> string \<Rightarrow> startup_error + string \<times> string" where
  "any_createClient u k = Inr (u, k)"

definition http_createClient :: "string \<Rightarrow> string \<Rightarrow> startup_error + string \<times> string" where
  "http_createClient u k =
     (if prefix ''http://'' u \<or> prefix ''https://'' u then Inr (u, k)
      else Inl (StartupError ''Invalid supabaseUrl''))"

subsection \<open>Runs of the component\<close>

text \<open>
  The events that drive the component: the three button handlers, the settling of a
  stream request made at mount or after an upload, the two recorder callbacks, and the
  settling of a storage write. \<open>StartRecording\<close> is the handler run to its end;
  \<open>StartRecordingAwait\<close> and \<open>StartRecordingResume\<close> are its two halves around the
  await, between which other events can occur.
\<close>

datatype event =
    StartStream gum_outcome
  | StartRecording gum_outcome recorder_outcome
  | StartRecordingAwait
  | StartRecordingResume gum_outcome recorder_outcome
  | DataAvailable nat blob
  | StopRecording
  | RecorderStop nat
  | UploadBegin string
  | UploadFinish "string \<Rightarrow> string \<Rightarrow> string" string string upload_outcome

fun fire :: "event \<Rightarrow> state \<Rightarrow> state" where
  "fire (StartStream g) s = snd (startStream g s)"
| "fire (StartRecording g ro) s = startRecording g ro s"
| "fire StartRecordingAwait s = startRecording_await s"
| "fire (StartRecordingResume g ro) s = startRecording_resume g ro s"
| "fire (DataAvailable rid b) s = ondataavailable b s"
| "fire StopRecording s = stopRecording s"
| "fire (RecorderStop rid) s = onstop rid s"
| "fire (UploadBegin uuid) s = snd (handleUpload_begin uuid s)"
| "fire (UploadFinish gpu fileName filePath out) s = handleUpload_finish gpu fileName filePath out s"

fun run :: "state \<Rightarrow> event list \<Rightarrow> state" where
  "run s [] = s"
| "run s (e # es) = run (fire e s) es"

definition live_recorder :: "state \<Rightarrow> nat \<Rightarrow> bool" where
  "live_recorder s rid = (rid < length (recorders s) \<and> rec_phase (recorders s ! rid) \<noteq> Finalized)"

text \<open>
  An event can occur when the platform can deliver it: a recorder fires its callbacks
  only until its stop event, and the handler awaits only when the element holds no
  stream. \<open>G\<close> is the condition under which \<^verbatim>\<open>startRecording\<close> is invoked and under
  which it is resumed after its await; the handler itself checks none.
\<close>

fun enabled :: "(state \<Rightarrow> bool) \<Rightarrow> state \<Rightarrow> event \<Rightarrow> bool" where
  "enabled G s (StartRecording g ro) = G s"
| "enabled G s StartRecordingAwait = (G s \<and> current_stream s = None)"
| "enabled G s (StartRecordingResume g ro) = G s"
| "enabled G s (DataAvailable rid b) = live_recorder s rid"
| "enabled G s (RecorderStop rid) = live_recorder s rid"
| "enabled G s e = True"

fun admissible :: "(state \<Rightarrow> bool) \<Rightarrow> state \<Rightarrow> event list \<Rightarrow> bool" where
  "admissible G s [] = True"
| "admissible G s (e # es) = (enabled G s e \<and> admissible G (fire e s) es)"

definition deliver :: "blob list \<Rightarrow> state \<Rightarrow> state" where
  "deliver segs s = foldl (\<lambda>t b. ondataavailable b t) s segs"

text \<open>
  The segments that a run delivers, in the order of their delivery, and the events that
  leave a recording session to itself: no call of \<^verbatim>\<open>startRecording\<close>, and no
  resumption of one, that gets past the constructor of the recorder (a call that fails
  earlier, for want of a stream, changes what one that fails in the constructor changes),
  and no stop event.
\<close>

fun delivered :: "event list \<Rightarrow> blob list" where
  "delivered [] = []"
| "delivered (DataAvailable rid b # es) = b # delivered es"
| "delivered (e # es) = delivered es"

fun undisturbed :: "event \<Rightarrow> bool" where
  "undisturbed (StartRecording g ro) = (ro = ConstructorThrows)"
| "undisturbed (StartRecordingResume g ro) = (ro = ConstructorThrows)"
| "undisturbed (RecorderStop rid) = False"
| "undisturbed e = True"

subsection \<open>The controller states of the specification\<close>

text \<open>
  The source declares no controller state; the specification's five states are read off
  the component's flags. The flags are set independently of each other, so nothing in
  the definition keeps a state from being Recording and Uploading at once. A
  RecordingSession is active from its start to its stop event.
\<close>

datatype controller_state = Idle | StreamReady | Recording | Recorded | Uploading

definition active_session :: "state \<Rightarrow> bool" where
  "active_session s = (case mediaRecorderRef s of None \<Rightarrow> False | Some rid \<Rightarrow> live_recorder s rid)"

definition live_stream :: "state \<Rightarrow> bool" where
  "live_stream s =
     (case current_stream s of None \<Rightarrow> False | Some sid \<Rightarrow> sid < length (streams s) \<and> streams s ! sid)"

fun in_state :: "controller_state \<Rightarrow> state \<Rightarrow> bool" where
  "in_state Recording s = isRecording s"
| "in_state Uploading s = uploading s"
| "in_state Recorded s = (videoBlob s \<noteq> None \<and> \<not> isRecording s \<and> \<not> uploading s)"
| "in_state StreamReady s = (videoBlob s = None \<and> \<not> isRecording s \<and> \<not> uploading s \<and> live_stream s)"
| "in_state Idle s = (videoBlob s = None \<and> \<not> isRecording s \<and> \<not> uploading s \<and> \<not> live_stream s)"

definition active_recorders :: "state \<Rightarrow> nat" where
  "active_recorders s = length (filter (\<lambda>r. rec_phase r \<noteq> Finalized) (recorders s))"

definition artifact_invariant :: "state \<Rightarrow> bool" where
  "artifact_invariant s =
     ((in_state Recorded s \<or> in_state Uploading s \<longrightarrow> videoBlob s \<noteq> None) \<and>
      (in_state Recording s \<longrightarrow> active_session s \<and> videoBlob s = None))"

text \<open>
  The Start button of the component: rendered while \<^verbatim>\<open>isRecording\<close> is false, disabled
  while \<^verbatim>\<open>uploading\<close> is true.
\<close>

definition start_button :: "state \<Rightarrow> bool" where
  "start_button s = (\<not> isRecording s \<and> \<not> uploading s)"

text \<open>
  For the proofs. \<open>recording_step s t\<close>: what a run of the try block of
  \<^verbatim>\<open>startRecording\<close> does to the recorders, the flags and the artifact: nothing, or it
  adds a started recorder, makes it the current one, sets the recording flag and clears
  the artifact. \<open>one_session\<close>: a recorder that has not had its stop event is the one the
  ref holds, and the component is then recording. \<open>recording_invariant\<close>: what holds of
  the artifact in every run, whoever invokes the handlers.
\<close>

definition recording_step :: "state \<Rightarrow> state \<Rightarrow> bool" where
  "recording_step s t =
     ((recorders t = recorders s \<and> isRecording t = isRecording s
        \<and> mediaRecorderRef t = mediaRecorderRef s \<and> videoBlob t = videoBlob s
        \<and> uploading t = uploading s)
      \<or> (\<exists>sid mt.
            recorders t = recorders s @ [\<lparr>rec_stream = sid, rec_mimeType = mt, rec_phase = Active\<rparr>]
          \<and> isRecording t \<and> mediaRecorderRef t = Some (length (recorders s))
          \<and> videoBlob t = None \<and> uploading t = uploading s))"

definition one_session :: "state \<Rightarrow> bool" where
  "one_session s =
     (\<forall>i < length (recorders s).
        rec_phase (recorders s ! i) \<noteq> Finalized \<longrightarrow> isRecording s \<and> mediaRecorderRef s = Some i)"

definition recording_invariant :: "state \<Rightarrow> bool" where
  "recording_invariant s =
     ((isRecording s \<longrightarrow> active_session s \<and> videoBlob s = None) \<and>
      (uploading s \<and> \<not> isRecording s \<longrightarrow> videoBlob s \<noteq> None))"

subsection \<open>Example runs\<close>

text \<open>
  The scenario of the specification: a stream is acquired, a recording is started with the
  encoding the source asks for, two segments of 4096 and 8192 bytes arrive, and the
  recording is stopped.
\<close>

definition seg_a :: blob where
  "seg_a = \<lparr>blob_bytes = replicate 4096 0, blob_type = ''video/webm''\<rparr>"

definition seg_b :: blob where
  "seg_b = \<lparr>blob_bytes = replicate 8192 1, blob_type = ''video/webm''\<rparr>"

definition recording_example :: state where
  "recording_example =
     run initial_state [StartStream Granted, StartRecording Granted (Started ''video/webm; codecs=vp8'')]"

definition recorded_example :: state where
  "recorded_example =
     run recording_example
       [DataAvailable 0 seg_a, DataAvailable 0 seg_b, StopRecording, RecorderStop 0]"

text \<open>
  A recorded state whose element holds a live stream: the button is clicked before the
  stream request of the mount has settled, the handler acquires a stream of its own and
  records on it, and the request of the mount settles during the recording; the stop
  event ends the recorder's stream only.
\<close>

definition rerecord_example :: state where
  "rerecord_example =
     run initial_state
       [StartRecording Granted (Started ''video/webm; codecs=vp8''), StartStream Granted,
        DataAvailable 0 seg_a, StopRecording, RecorderStop 0]"

text \<open>
  A run that begins an upload while a call of \<^verbatim>\<open>startRecording\<close> is suspended. The
  Start button is clicked before the stream request of the mount has settled, so the
  handler awaits a stream request of its own. The request of the mount settles; the
  button is clicked again and the recording starts at once; segments arrive; the
  recording is stopped and the upload begun. The first call has yet to resume.
\<close>

definition uploading_run :: "event list" where
  "uploading_run =
     [StartRecordingAwait, StartStream Granted,
      StartRecording Granted (Started ''video/webm; codecs=vp8''),
      DataAvailable 0 seg_a, DataAvailable 0 seg_b, StopRecording, RecorderStop 0,
      UploadBegin ''0b7e'']"

definition uploading_example :: state where
  "uploading_example = run initial_state uploading_run"

section \<open>Facts about the handlers\<close>

lemma str_includes_sublist: "str_includes s pat \<longleftrightarrow> sublist pat s"
  by (induction s) (simp_all add: sublist_Cons_right)

lemma blob_size_new_Blob: "blob_size (new_Blob parts t) = sum_list (map blob_size parts)"
  by (induction parts) (simp_all add: blob_size_def new_Blob_def)

lemma deliver_Nil: "deliver [] s = s"
  by (simp add: deliver_def)

lemma deliver_Cons: "deliver (b # bs) s = deliver bs (ondataavailable b s)"
  by (simp add: deliver_def)

lemma deliver_eq:
  "deliver segs s =
     s\<lparr>recordedChunksRef := recordedChunksRef s @ filter (\<lambda>b. blob_size b > 0) segs\<rparr>"
  by (induction segs arbitrary: s) (simp_all add: deliver_Nil deliver_Cons ondataavailable_def)

lemma sum_nonempty:
  "sum_list (map blob_size (filter (\<lambda>b. blob_size b > 0) segs)) = sum_list (map blob_size segs)"
  by (induction segs) simp_all

lemma startRecording_started:
  assumes "current_stream s \<noteq> None \<or> (g = Granted \<and> videoRef s \<noteq> None)"
  shows "\<exists>sid. recorders (startRecording g (Started mt) s)
             = recorders s @ [\<lparr>rec_stream = sid, rec_mimeType = mt, rec_phase = Active\<rparr>]"
    and "mediaRecorderRef (startRecording g (Started mt) s) = Some (length (recorders s))"
    and "recordedChunksRef (startRecording g (Started mt) s) = []"
    and "isRecording (startRecording g (Started mt) s)"
    and "videoBlob (startRecording g (Started mt) s) = None"
    and "uploading (startRecording g (Started mt) s) = uploading s"
  using assms
  by (auto simp: startRecording_def startRecording_await_def startRecording_resume_def
      begin_recording_def startStream_def current_stream_def Let_def
      split: option.splits gum_outcome.splits)

lemma stopRecording_fields:
  "recordedChunksRef (stopRecording s) = recordedChunksRef s"
  "videoBlob (stopRecording s) = videoBlob s"
  "isRecording (stopRecording s) = isRecording s"
  "uploading (stopRecording s) = uploading s"
  "mediaRecorderRef (stopRecording s) = mediaRecorderRef s"
  "length (recorders (stopRecording s)) = length (recorders s)"
  by (auto simp: stopRecording_def recorder_stop_def split: option.splits)

lemma nth_update_mimeType:
  "i < length rs \<Longrightarrow>
   rec_mimeType (rs[j := (rs ! j)\<lparr>rec_phase := p\<rparr>] ! i) = rec_mimeType (rs ! i)"
  by (cases "i = j") simp_all

lemma stopRecording_mimeType:
  "i < length (recorders s) \<Longrightarrow>
   rec_mimeType (recorders (stopRecording s) ! i) = rec_mimeType (recorders s ! i)"
  by (auto simp: stopRecording_def recorder_stop_def nth_update_mimeType split: option.splits)



lemma startStream_fields:
  "videoBlob (snd (startStream g t)) = videoBlob t"
  "uploading (snd (startStream g t)) = uploading t"
  "isRecording (snd (startStream g t)) = isRecording t"
  "mediaRecorderRef (snd (startStream g t)) = mediaRecorderRef t"
  "recorders (snd (startStream g t)) = recorders t"
  "recordedChunksRef (snd (startStream g t)) = recordedChunksRef t"
  by (simp_all add: startStream_def Let_def split: gum_outcome.splits option.splits)


lemma handleUpload_success:
  assumes "videoBlob s = Some vb"
  shows "handleUpload getPublicUrl uuid (Resolved None) g s
           = snd (startStream g
                (s\<lparr>statusMessage :=
                     ''Upload successful! File: ''
                     @ (uuid @ ''.'' @ (if str_includes (blob_type vb) ''webm'' then ''webm'' else ''mp4''))
                     @ ''. Public URL: ''
                     @ getPublicUrl ''videos''
                         (''public_videos/''
                          @ (uuid @ ''.'' @ (if str_includes (blob_type vb) ''webm'' then ''webm'' else ''mp4''))),
                   videoBlob := None, uploading := False\<rparr>))"
  using assms
  by (simp add: handleUpload_def handleUpload_begin_def handleUpload_finish_def Let_def
      write_succeeded_def)


subsection \<open>What each handler does to the recorders, the flags and the artifact\<close>

lemma ondataavailable_fields:
  "recorders (ondataavailable b s) = recorders s"
  "isRecording (ondataavailable b s) = isRecording s"
  "mediaRecorderRef (ondataavailable b s) = mediaRecorderRef s"
  "videoBlob (ondataavailable b s) = videoBlob s"
  "uploading (ondataavailable b s) = uploading s"
  by (simp_all add: ondataavailable_def)

lemma startRecording_await_fields:
  "recorders (startRecording_await s) = recorders s"
  "isRecording (startRecording_await s) = isRecording s"
  "mediaRecorderRef (startRecording_await s) = mediaRecorderRef s"
  "videoBlob (startRecording_await s) = videoBlob s"
  "uploading (startRecording_await s) = uploading s"
  by (simp_all add: startRecording_await_def)

lemma handleUpload_begin_fields:
  "recorders (snd (handleUpload_begin u s)) = recorders s"
  "isRecording (snd (handleUpload_begin u s)) = isRecording s"
  "mediaRecorderRef (snd (handleUpload_begin u s)) = mediaRecorderRef s"
  "videoBlob (snd (handleUpload_begin u s)) = videoBlob s"
  "uploading (snd (handleUpload_begin u s)) = (uploading s \<or> videoBlob s \<noteq> None)"
  by (simp_all add: handleUpload_begin_def Let_def split: option.splits)

lemma handleUpload_finish_fields:
  "recorders (handleUpload_finish gpu fn fp out s) = recorders s"
  "isRecording (handleUpload_finish gpu fn fp out s) = isRecording s"
  "mediaRecorderRef (handleUpload_finish gpu fn fp out s) = mediaRecorderRef s"
  "uploading (handleUpload_finish gpu fn fp out s) = False"
  "videoBlob (handleUpload_finish gpu fn fp out s) = (if write_succeeded out then None else videoBlob s)"
  by (simp_all add: handleUpload_finish_def upload_failed_def write_succeeded_def Let_def
      split: upload_outcome.splits option.splits)

lemma stopRecording_phase:
  "i < length (recorders s) \<Longrightarrow>
   (rec_phase (recorders (stopRecording s) ! i) = Finalized) = (rec_phase (recorders s ! i) = Finalized)"
  by (cases "mediaRecorderRef s = Some i")
     (auto simp: stopRecording_def recorder_stop_def split: option.splits)

lemma onstop_fields:
  assumes "rid < length (recorders s)"
  shows "recorders (onstop rid s) = (recorders s)[rid := (recorders s ! rid)\<lparr>rec_phase := Finalized\<rparr>]"
    and "\<not> isRecording (onstop rid s)"
    and "videoBlob (onstop rid s) \<noteq> None"
    and "mediaRecorderRef (onstop rid s) = mediaRecorderRef s"
    and "uploading (onstop rid s) = uploading s"
  using assms by (simp_all add: onstop_def Let_def)

lemma onstop_cases:
  "onstop rid s = s \<or> (\<not> isRecording (onstop rid s) \<and> videoBlob (onstop rid s) \<noteq> None)"
  by (simp add: onstop_def Let_def)

lemma begin_recording_step: "recording_step s (begin_recording ro sid s)"
  by (cases ro) (simp_all add: recording_step_def begin_recording_def)

lemma recording_step_from:
  assumes "recording_step s1 t"
    and "recorders s1 = recorders s" "isRecording s1 = isRecording s"
    and "mediaRecorderRef s1 = mediaRecorderRef s" "videoBlob s1 = videoBlob s"
    and "uploading s1 = uploading s"
  shows "recording_step s t"
  using assms by (simp add: recording_step_def)

lemma startRecording_resume_step: "recording_step s (startRecording_resume g ro s)"
proof -
  obtain r s1 where p: "startStream g s = (r, s1)"
    by (cases "startStream g s")
  have f: "recorders s1 = recorders s" "isRecording s1 = isRecording s"
    "mediaRecorderRef s1 = mediaRecorderRef s" "videoBlob s1 = videoBlob s"
    "uploading s1 = uploading s"
    using startStream_fields [of g s] by (simp_all add: p)
  show ?thesis
  proof (cases r)
    case None
    with p have "startRecording_resume g ro s = s1"
      by (simp add: startRecording_resume_def)
    with f show ?thesis
      by (simp add: recording_step_def)
  next
    case (Some sid)
    with p have e: "startRecording_resume g ro s = begin_recording ro sid s1"
      by (simp add: startRecording_resume_def)
    show ?thesis
      unfolding e by (rule recording_step_from [OF begin_recording_step f])
  qed
qed

lemma startRecording_step: "recording_step s (startRecording g ro s)"
proof (cases "current_stream s")
  case None
  then have e: "startRecording g ro s = startRecording_resume g ro (startRecording_await s)"
    by (simp add: startRecording_def)
  show ?thesis
    unfolding e
    by (rule recording_step_from [OF startRecording_resume_step])
       (simp_all add: startRecording_await_fields)
next
  case (Some sid)
  then show ?thesis
    by (simp add: startRecording_def begin_recording_step)
qed

subsection \<open>A recording session left to itself\<close>

lemma constructor_throws_fields:
  "recordedChunksRef (startRecording_resume g ConstructorThrows s) = recordedChunksRef s"
  "videoBlob (startRecording_resume g ConstructorThrows s) = videoBlob s"
  "recorders (startRecording_resume g ConstructorThrows s) = recorders s"
  "recordedChunksRef (startRecording g ConstructorThrows s) = recordedChunksRef s"
  "videoBlob (startRecording g ConstructorThrows s) = videoBlob s"
  "recorders (startRecording g ConstructorThrows s) = recorders s"
  by (simp_all add: startRecording_def startRecording_await_def startRecording_resume_def
      begin_recording_def startStream_def Let_def split: option.splits gum_outcome.splits)

lemma buffer_fields:
  "recordedChunksRef (startRecording_await s) = recordedChunksRef s"
  "recordedChunksRef (snd (handleUpload_begin u s)) = recordedChunksRef s"
  "recordedChunksRef (handleUpload_finish gpu fn fp out s) = recordedChunksRef s"
  by (simp_all add: startRecording_await_def handleUpload_begin_def handleUpload_finish_def
      upload_failed_def Let_def split: option.splits upload_outcome.splits)

lemma undisturbed_fire:
  assumes "undisturbed e"
  shows "recordedChunksRef (fire e s)
           = recordedChunksRef s @ filter (\<lambda>b. blob_size b > 0) (delivered [e])"
    and "videoBlob s = None \<Longrightarrow> videoBlob (fire e s) = None"
    and "length (recorders (fire e s)) = length (recorders s)"
    and "i < length (recorders s) \<Longrightarrow>
           rec_mimeType (recorders (fire e s) ! i) = rec_mimeType (recorders s ! i)"
  using assms
  by (cases e;
      simp add: startStream_fields constructor_throws_fields buffer_fields
        startRecording_await_fields ondataavailable_fields ondataavailable_def
        stopRecording_fields stopRecording_mimeType handleUpload_begin_fields
        handleUpload_finish_fields)+

lemma delivered_Cons: "delivered (e # es) = delivered [e] @ delivered es"
  by (cases e) simp_all

lemma undisturbed_run:
  assumes "\<forall>e \<in> set es. undisturbed e"
  shows "recordedChunksRef (run s es)
           = recordedChunksRef s @ filter (\<lambda>b. blob_size b > 0) (delivered es)
       \<and> (videoBlob s = None \<longrightarrow> videoBlob (run s es) = None)
       \<and> length (recorders (run s es)) = length (recorders s)
       \<and> (\<forall>i < length (recorders s).
             rec_mimeType (recorders (run s es) ! i) = rec_mimeType (recorders s ! i))"
  using assms
proof (induction es arbitrary: s)
  case Nil
  then show ?case by simp
next
  case (Cons e es)
  then have u: "undisturbed e" and us: "\<forall>e \<in> set es. undisturbed e"
    by simp_all
  note f = undisturbed_fire [OF u, where s = s]
  note ih = Cons.IH [OF us, of "fire e s"]
  have "recordedChunksRef (run s (e # es))
          = recordedChunksRef s @ filter (\<lambda>b. blob_size b > 0) (delivered (e # es))"
    using ih f(1) by (simp add: delivered_Cons [of e es])
  moreover have "videoBlob s = None \<longrightarrow> videoBlob (run s (e # es)) = None"
    using ih f(2) by simp
  moreover have "length (recorders (run s (e # es))) = length (recorders s)"
    using ih f(3) by simp
  moreover have "\<forall>i < length (recorders s).
      rec_mimeType (recorders (run s (e # es)) ! i) = rec_mimeType (recorders s ! i)"
    using ih f(3) f(4) by simp
  ultimately show ?case by blast
qed

subsection \<open>One recording session at a time\<close>

lemma one_session_step:
  assumes "one_session s" and "\<not> isRecording s" and "recording_step s t"
  shows "one_session t"
proof -
  from assms(1,2) have fin: "\<forall>i < length (recorders s). rec_phase (recorders s ! i) = Finalized"
    by (auto simp: one_session_def)
  from assms(3) show ?thesis
    unfolding recording_step_def
  proof (elim disjE exE conjE)
    assume "recorders t = recorders s" "isRecording t = isRecording s"
      "mediaRecorderRef t = mediaRecorderRef s"
    with fin show ?thesis by (simp add: one_session_def)
  next
    fix sid mt
    assume "recorders t = recorders s @ [\<lparr>rec_stream = sid, rec_mimeType = mt, rec_phase = Active\<rparr>]"
      "isRecording t" "mediaRecorderRef t = Some (length (recorders s))"
    with fin show ?thesis
      by (auto simp: one_session_def nth_append less_Suc_eq)
  qed
qed

lemma one_session_fire:
  assumes "one_session s" and "enabled (\<lambda>s. \<not> isRecording s) s e"
  shows "one_session (fire e s)"
proof (cases e)
  case (StartStream g)
  with assms(1) show ?thesis
    by (simp add: one_session_def startStream_fields)
next
  case (StartRecording g ro)
  with assms(2) have "\<not> isRecording s" by simp
  from one_session_step [OF assms(1) this startRecording_step] show ?thesis
    by (simp add: StartRecording)
next
  case StartRecordingAwait
  with assms(1) show ?thesis
    by (simp add: one_session_def startRecording_await_fields)
next
  case (StartRecordingResume g ro)
  with assms(2) have "\<not> isRecording s" by simp
  from one_session_step [OF assms(1) this startRecording_resume_step] show ?thesis
    by (simp add: StartRecordingResume)
next
  case (DataAvailable rid b)
  with assms(1) show ?thesis
    by (simp add: one_session_def ondataavailable_fields)
next
  case StopRecording
  with assms(1) show ?thesis
    by (simp add: one_session_def stopRecording_fields stopRecording_phase)
next
  case (RecorderStop rid)
  with assms(2) have lt: "rid < length (recorders s)" and live: "rec_phase (recorders s ! rid) \<noteq> Finalized"
    by (simp_all add: live_recorder_def)
  from assms(1) lt live have cur: "mediaRecorderRef s = Some rid"
    by (simp add: one_session_def)
  have "rec_phase (recorders (onstop rid s) ! i) = Finalized" if "i < length (recorders s)" for i
  proof (cases "i = rid")
    case True
    with lt show ?thesis by (simp add: onstop_fields)
  next
    case False
    with assms(1) that cur have "rec_phase (recorders s ! i) = Finalized"
      by (auto simp: one_session_def)
    with False lt show ?thesis by (simp add: onstop_fields)
  qed
  with lt show ?thesis
    by (simp add: one_session_def RecorderStop onstop_fields)
next
  case (UploadBegin u)
  with assms(1) show ?thesis
    by (simp add: one_session_def handleUpload_begin_fields)
next
  case (UploadFinish gpu fn fp out)
  with assms(1) show ?thesis
    by (simp add: one_session_def handleUpload_finish_fields)
qed

lemma one_session_run:
  "one_session s \<Longrightarrow> admissible (\<lambda>s. \<not> isRecording s) s es \<Longrightarrow> one_session (run s es)"
  by (induction es arbitrary: s) (simp_all add: one_session_fire)

lemma filter_at_most_one:
  assumes "\<And>i j. i < length xs \<Longrightarrow> j < length xs \<Longrightarrow> P (xs ! i) \<Longrightarrow> P (xs ! j) \<Longrightarrow> i = j"
  shows "length (filter P xs) \<le> 1"
  using assms
proof (induction xs)
  case Nil
  then show ?case by simp
next
  case (Cons x xs)
  have ih: "length (filter P xs) \<le> 1"
  proof (rule Cons.IH)
    fix i j assume "i < length xs" "j < length xs" "P (xs ! i)" "P (xs ! j)"
    with Cons.prems [of "Suc i" "Suc j"] show "i = j" by simp
  qed
  show ?case
  proof (cases "P x")
    case False
    with ih show ?thesis by simp
  next
    case True
    have "\<not> P y" if "y \<in> set xs" for y
    proof
      assume "P y"
      from that obtain k where "k < length xs" "xs ! k = y"
        by (auto simp: in_set_conv_nth)
      with Cons.prems [of 0 "Suc k"] True \<open>P y\<close> show False by simp
    qed
    then have "filter P xs = []" by (simp add: filter_empty_conv)
    with True show ?thesis by simp
  qed
qed

lemma one_session_active:
  assumes "one_session s"
  shows "active_recorders s \<le> 1"
  unfolding active_recorders_def
proof (rule filter_at_most_one)
  fix i j
  assume "i < length (recorders s)" "j < length (recorders s)"
    "rec_phase (recorders s ! i) \<noteq> Finalized" "rec_phase (recorders s ! j) \<noteq> Finalized"
  with assms have "mediaRecorderRef s = Some i" "mediaRecorderRef s = Some j"
    unfolding one_session_def by blast+
  then show "i = j" by simp
qed

lemma one_session_initial: "one_session initial_state"
  by (simp add: one_session_def initial_state_def)

lemma active_recorders_start:
  assumes "current_stream s \<noteq> None \<or> (g = Granted \<and> videoRef s \<noteq> None)"
  shows "active_recorders (startRecording g (Started mt) s) = Suc (active_recorders s)"
proof -
  from startRecording_started(1) [OF assms, of mt] obtain sid where
    "recorders (startRecording g (Started mt) s)
       = recorders s @ [\<lparr>rec_stream = sid, rec_mimeType = mt, rec_phase = Active\<rparr>]"
    by blast
  then show ?thesis by (simp add: active_recorders_def)
qed

subsection \<open>The artifact invariant\<close>

lemma artifact_invariant_iff:
  "artifact_invariant s \<longleftrightarrow>
     (uploading s \<longrightarrow> videoBlob s \<noteq> None) \<and> (isRecording s \<longrightarrow> active_session s \<and> videoBlob s = None)"
  by (auto simp: artifact_invariant_def)

lemma active_session_same:
  "recorders t = recorders s \<Longrightarrow> mediaRecorderRef t = mediaRecorderRef s \<Longrightarrow>
   active_session t = active_session s"
  by (simp add: active_session_def live_recorder_def split: option.splits)

lemma active_session_fields:
  "active_session (snd (startStream g s)) = active_session s"
  "active_session (ondataavailable b s) = active_session s"
  "active_session (startRecording_await s) = active_session s"
  "active_session (snd (handleUpload_begin u s)) = active_session s"
  "active_session (handleUpload_finish gpu fn fp out s) = active_session s"
  by (rule active_session_same;
      simp add: startStream_fields ondataavailable_fields startRecording_await_fields
        handleUpload_begin_fields handleUpload_finish_fields)+

lemma active_session_stopRecording: "active_session (stopRecording s) = active_session s"
  by (auto simp: active_session_def live_recorder_def stopRecording_fields stopRecording_phase
      split: option.splits)

lemma active_session_started:
  assumes "recorders t = recorders s @ [\<lparr>rec_stream = sid, rec_mimeType = mt, rec_phase = Active\<rparr>]"
    and "mediaRecorderRef t = Some (length (recorders s))"
  shows "active_session t"
  using assms by (simp add: active_session_def live_recorder_def)

lemma recording_step_invariants:
  assumes "recording_step s t" and "isRecording s \<longrightarrow> active_session s \<and> videoBlob s = None"
  shows "isRecording t \<longrightarrow> active_session t \<and> videoBlob t = None"
    and "uploading t = uploading s"
    and "\<not> isRecording t \<longrightarrow> videoBlob t = videoBlob s \<and> isRecording t = isRecording s"
proof -
  from assms(1)
  have "(isRecording t \<longrightarrow> active_session t \<and> videoBlob t = None)
        \<and> uploading t = uploading s
        \<and> (\<not> isRecording t \<longrightarrow> videoBlob t = videoBlob s \<and> isRecording t = isRecording s)"
    unfolding recording_step_def
  proof (elim disjE exE conjE)
    assume u: "recorders t = recorders s" "isRecording t = isRecording s"
      "mediaRecorderRef t = mediaRecorderRef s" "videoBlob t = videoBlob s"
      "uploading t = uploading s"
    then have "active_session t = active_session s"
      by (intro active_session_same)
    with u assms(2) show ?thesis by simp
  next
    fix sid mt
    assume r: "recorders t = recorders s @ [\<lparr>rec_stream = sid, rec_mimeType = mt, rec_phase = Active\<rparr>]"
      and m: "mediaRecorderRef t = Some (length (recorders s))"
      and rest: "isRecording t" "videoBlob t = None" "uploading t = uploading s"
    from active_session_started [OF r m] rest show ?thesis by simp
  qed
  then show "isRecording t \<longrightarrow> active_session t \<and> videoBlob t = None"
    and "uploading t = uploading s"
    and "\<not> isRecording t \<longrightarrow> videoBlob t = videoBlob s \<and> isRecording t = isRecording s"
    by blast+
qed

lemma recording_invariant_step:
  assumes "recording_invariant s" and "recording_step s t"
  shows "recording_invariant t"
proof -
  from assms(1) have a: "isRecording s \<longrightarrow> active_session s \<and> videoBlob s = None"
    by (simp add: recording_invariant_def)
  from recording_step_invariants [OF assms(2) a] assms(1) show ?thesis
    unfolding recording_invariant_def by auto
qed

lemma recording_invariant_fire:
  assumes "recording_invariant s"
  shows "recording_invariant (fire e s)"
proof (cases e)
  case (StartStream g)
  with assms show ?thesis
    by (simp add: recording_invariant_def startStream_fields active_session_fields)
next
  case (StartRecording g ro)
  from recording_invariant_step [OF assms startRecording_step] show ?thesis
    by (simp add: StartRecording)
next
  case StartRecordingAwait
  with assms show ?thesis
    by (simp add: recording_invariant_def startRecording_await_fields active_session_fields)
next
  case (StartRecordingResume g ro)
  from recording_invariant_step [OF assms startRecording_resume_step] show ?thesis
    by (simp add: StartRecordingResume)
next
  case (DataAvailable rid b)
  with assms show ?thesis
    by (simp add: recording_invariant_def ondataavailable_fields active_session_fields)
next
  case StopRecording
  with assms show ?thesis
    by (simp add: recording_invariant_def stopRecording_fields active_session_stopRecording)
next
  case (RecorderStop rid)
  from onstop_cases [of rid s] assms show ?thesis
    unfolding RecorderStop fire.simps recording_invariant_def by auto
next
  case (UploadBegin u)
  with assms show ?thesis
    by (auto simp: recording_invariant_def handleUpload_begin_fields active_session_fields)
next
  case (UploadFinish gpu fn fp out)
  with assms show ?thesis
    by (auto simp: recording_invariant_def handleUpload_finish_fields active_session_fields)
qed

lemma recording_invariant_run:
  "recording_invariant s \<Longrightarrow> recording_invariant (run s es)"
  by (induction es arbitrary: s) (simp_all add: recording_invariant_fire)

lemma artifact_invariant_step:
  assumes "artifact_invariant s" and "\<not> uploading s" and "recording_step s t"
  shows "artifact_invariant t"
proof -
  from assms(1) have a: "isRecording s \<longrightarrow> active_session s \<and> videoBlob s = None"
    by (simp add: artifact_invariant_iff)
  from recording_step_invariants [OF assms(3) a] assms(2) show ?thesis
    unfolding artifact_invariant_iff by simp
qed

lemma artifact_invariant_startRecording:
  "artifact_invariant s \<Longrightarrow> \<not> uploading s \<Longrightarrow> artifact_invariant (startRecording g ro s)"
  by (rule artifact_invariant_step [OF _ _ startRecording_step])

lemma artifact_invariant_resume:
  "artifact_invariant s \<Longrightarrow> \<not> uploading s \<Longrightarrow> artifact_invariant (startRecording_resume g ro s)"
  by (rule artifact_invariant_step [OF _ _ startRecording_resume_step])

lemma artifact_invariant_await:
  "artifact_invariant s \<Longrightarrow> artifact_invariant (startRecording_await s)"
  by (simp add: artifact_invariant_iff startRecording_await_fields active_session_fields)

lemma artifact_invariant_onstop:
  "artifact_invariant s \<Longrightarrow> artifact_invariant (onstop rid s)"
  using onstop_cases [of rid s] unfolding artifact_invariant_iff by auto

lemma artifact_invariant_stopRecording:
  "artifact_invariant s \<Longrightarrow> artifact_invariant (stopRecording s)"
  by (simp add: artifact_invariant_iff stopRecording_fields active_session_stopRecording)

lemma artifact_invariant_startStream:
  "artifact_invariant s \<Longrightarrow> artifact_invariant (snd (startStream g s))"
  by (simp add: artifact_invariant_iff startStream_fields active_session_fields)

lemma artifact_invariant_ondataavailable:
  "artifact_invariant s \<Longrightarrow> artifact_invariant (ondataavailable b s)"
  by (simp add: artifact_invariant_iff ondataavailable_fields active_session_fields)

lemma artifact_invariant_begin:
  "artifact_invariant s \<Longrightarrow> artifact_invariant (snd (handleUpload_begin u s))"
  by (auto simp: artifact_invariant_iff handleUpload_begin_fields active_session_fields)

lemma artifact_invariant_finish:
  "artifact_invariant s \<Longrightarrow> artifact_invariant (handleUpload_finish gpu fn fp out s)"
  by (auto simp: artifact_invariant_iff handleUpload_finish_fields active_session_fields)

lemma handleUpload_pieces:
  "handleUpload gpu uuid out g s = snd (handleUpload_begin uuid s)
   \<or> (\<exists>fn fp. handleUpload gpu uuid out g s
          = handleUpload_finish gpu fn fp out (snd (handleUpload_begin uuid s)))
   \<or> (\<exists>fn fp. handleUpload gpu uuid out g s
          = snd (startStream g (handleUpload_finish gpu fn fp out (snd (handleUpload_begin uuid s)))))"
proof (cases "handleUpload_begin uuid s")
  case (Pair call s1)
  show ?thesis
  proof (cases call)
    case None
    with Pair show ?thesis by (simp add: handleUpload_def)
  next
    case (Some c)
    obtain fn uc where c: "c = (fn, uc)" by (cases c)
    show ?thesis
    proof (cases "write_succeeded out")
      case True
      with Pair Some c have "handleUpload gpu uuid out g s
          = snd (startStream g (handleUpload_finish gpu fn (up_path uc) out (snd (handleUpload_begin uuid s))))"
        by (simp add: handleUpload_def Let_def)
      then show ?thesis by blast
    next
      case False
      with Pair Some c have "handleUpload gpu uuid out g s
          = handleUpload_finish gpu fn (up_path uc) out (snd (handleUpload_begin uuid s))"
        by (simp add: handleUpload_def Let_def)
      then show ?thesis by blast
    qed
  qed
qed

lemma artifact_invariant_handleUpload:
  assumes "artifact_invariant s"
  shows "artifact_invariant (handleUpload gpu uuid out g s)"
proof -
  note b = artifact_invariant_begin [OF assms, of uuid]
  from handleUpload_pieces [of gpu uuid out g s] show ?thesis
  proof (elim disjE exE)
    assume "handleUpload gpu uuid out g s = snd (handleUpload_begin uuid s)"
    with b show ?thesis by simp
  next
    fix fn fp
    assume "handleUpload gpu uuid out g s
          = handleUpload_finish gpu fn fp out (snd (handleUpload_begin uuid s))"
    with artifact_invariant_finish [OF b] show ?thesis by simp
  next
    fix fn fp
    assume "handleUpload gpu uuid out g s
          = snd (startStream g (handleUpload_finish gpu fn fp out (snd (handleUpload_begin uuid s))))"
    with artifact_invariant_startStream [OF artifact_invariant_finish [OF b]] show ?thesis by simp
  qed
qed

lemma artifact_invariant_fire:
  assumes "artifact_invariant s" and "enabled (\<lambda>s. \<not> uploading s) s e"
  shows "artifact_invariant (fire e s)"
  using assms
  by (cases e)
     (simp_all add: artifact_invariant_startRecording artifact_invariant_resume
        artifact_invariant_await artifact_invariant_onstop
        artifact_invariant_stopRecording artifact_invariant_startStream artifact_invariant_begin
        artifact_invariant_finish artifact_invariant_ondataavailable)

lemma artifact_invariant_run:
  "artifact_invariant s \<Longrightarrow> admissible (\<lambda>s. \<not> uploading s) s es \<Longrightarrow> artifact_invariant (run s es)"
  by (induction es arbitrary: s) (simp_all add: artifact_invariant_fire)

lemma invariants_initial: "artifact_invariant initial_state" "recording_invariant initial_state"
  by (simp_all add: artifact_invariant_def recording_invariant_def initial_state_def)

subsection \<open>The example runs, evaluated\<close>

lemmas handler_defs =
  startStream_def startRecording_def startRecording_await_def startRecording_resume_def
  begin_recording_def current_stream_def
  ondataavailable_def stopRecording_def recorder_stop_def onstop_def new_Blob_def
  split_first_def handleUpload_begin_def handleUpload_finish_def handleUpload_def
  upload_failed_def write_succeeded_def

lemma recording_example_eq:
  "recording_example =
     \<lparr>videoRef = Some \<lparr>srcObject = Some 0\<rparr>, mediaRecorderRef = Some 0,
      recordedChunksRef = [], isRecording = True, videoBlob = None,
      statusMessage = ''Recording...'', uploading = False, streams = [True],
      recorders = [\<lparr>rec_stream = 0, rec_mimeType = ''video/webm; codecs=vp8'', rec_phase = Active\<rparr>]\<rparr>"
  by (simp add: recording_example_def initial_state_def handler_defs Let_def)

lemma recorded_example_eq:
  "recorded_example =
     \<lparr>videoRef = Some \<lparr>srcObject = Some 0\<rparr>, mediaRecorderRef = Some 0,
      recordedChunksRef = [seg_a, seg_b], isRecording = False,
      videoBlob = Some \<lparr>blob_bytes = replicate 4096 0 @ replicate 8192 1, blob_type = ''video/webm''\<rparr>,
      statusMessage = ''Recording finished. Size: 0.01 MB. Ready to upload.'',
      uploading = False, streams = [False],
      recorders = [\<lparr>rec_stream = 0, rec_mimeType = ''video/webm; codecs=vp8'', rec_phase = Finalized\<rparr>]\<rparr>"
  by (simp add: recorded_example_def recording_example_eq handler_defs seg_a_def seg_b_def
      blob_size_def megabytes_toFixed2_def digit_def decimal.simps Let_def)

lemma rerecord_example_eq:
  "rerecord_example =
     \<lparr>videoRef = Some \<lparr>srcObject = Some 1\<rparr>, mediaRecorderRef = Some 0,
      recordedChunksRef = [seg_a], isRecording = False,
      videoBlob = Some \<lparr>blob_bytes = replicate 4096 0, blob_type = ''video/webm''\<rparr>,
      statusMessage = ''Recording finished. Size: 0.00 MB. Ready to upload.'',
      uploading = False, streams = [False, True],
      recorders = [\<lparr>rec_stream = 0, rec_mimeType = ''video/webm; codecs=vp8'', rec_phase = Finalized\<rparr>]\<rparr>"
  by (simp add: rerecord_example_def initial_state_def handler_defs seg_a_def
      blob_size_def megabytes_toFixed2_def digit_def decimal.simps Let_def)

lemma uploading_example_eq:
  "uploading_example =
     \<lparr>videoRef = Some \<lparr>srcObject = Some 0\<rparr>, mediaRecorderRef = Some 0,
      recordedChunksRef = [seg_a, seg_b], isRecording = False,
      videoBlob = Some \<lparr>blob_bytes = replicate 4096 0 @ replicate 8192 1, blob_type = ''video/webm''\<rparr>,
      statusMessage = ''Uploading to Supabase...'',
      uploading = True, streams = [False],
      recorders = [\<lparr>rec_stream = 0, rec_mimeType = ''video/webm; codecs=vp8'', rec_phase = Finalized\<rparr>]\<rparr>"
  by (simp add: uploading_example_def uploading_run_def initial_state_def handler_defs
      seg_a_def seg_b_def blob_size_def megabytes_toFixed2_def digit_def decimal.simps Let_def)

lemma uploading_run_admissible: "admissible start_button initial_state uploading_run"
  by (simp add: uploading_run_def start_button_def initial_state_def handler_defs
      live_recorder_def seg_a_def seg_b_def blob_size_def megabytes_toFixed2_def digit_def
      decimal.simps Let_def)

section \<open>The claims\<close>

text \<open>
  C1. A recording session that is started and then left to itself until the stop event of
  its recorder: in between, the run holds no call of \<^verbatim>\<open>startRecording\<close> that gets past
  the constructor of a recorder and no stop event; segments may arrive from any recorder
  and every other handler may run. Such a session produces one artifact: no artifact
  exists at any point of the run, the buffer at its end holds exactly the segments of
  positive size that were delivered (all of them when none is empty), and the stop event
  sets the artifact to their concatenation, whose byte length is the sum of the lengths
  of the segments delivered.
\<close>

theorem recording_session_artifact:
  fixes s :: state and g :: gum_outcome and mt :: string and es :: "event list"
  assumes "current_stream s \<noteq> None \<or> (g = Granted \<and> videoRef s \<noteq> None)"
    and "\<forall>e \<in> set es. undisturbed e"
  defines "s1 \<equiv> startRecording g (Started mt) s"
  defines "s2 \<equiv> run s1 es"
  defines "s3 \<equiv> onstop (length (recorders s)) s2"
  shows "mediaRecorderRef s1 = Some (length (recorders s))
       \<and> (\<forall>n. videoBlob (run s1 (take n es)) = None)
       \<and> recordedChunksRef s2 = filter (\<lambda>b. blob_size b > 0) (delivered es)
       \<and> ((\<forall>b \<in> set (delivered es). blob_size b > 0) \<longrightarrow> recordedChunksRef s2 = delivered es)
       \<and> videoBlob s3 = Some (new_Blob (recordedChunksRef s2) (split_first mt))
       \<and> map_option blob_size (videoBlob s3) = Some (sum_list (map blob_size (delivered es)))"
proof -
  note st = startRecording_started [OF assms(1), of mt]
  from st(1) obtain sid where
    recs: "recorders s1 = recorders s @ [\<lparr>rec_stream = sid, rec_mimeType = mt, rec_phase = Active\<rparr>]"
    unfolding s1_def by blast
  have b1: "videoBlob s1 = None" and c1: "recordedChunksRef s1 = []"
    and m1: "mediaRecorderRef s1 = Some (length (recorders s))"
    using st by (simp_all add: s1_def)
  have pre: "videoBlob (run s1 (take n es)) = None" for n
  proof -
    have "\<forall>e \<in> set (take n es). undisturbed e"
      using assms(2) by (meson in_set_takeD)
    from undisturbed_run [OF this, of s1] b1 show ?thesis by simp
  qed
  note r = undisturbed_run [OF assms(2), of s1]
  have c2: "recordedChunksRef s2 = filter (\<lambda>b. blob_size b > 0) (delivered es)"
    using r by (simp add: s2_def c1)
  have c2': "(\<forall>b \<in> set (delivered es). blob_size b > 0) \<longrightarrow> recordedChunksRef s2 = delivered es"
    unfolding c2 by (metis filter_True)
  have len: "length (recorders s2) = Suc (length (recorders s))"
    using r by (simp add: s2_def recs)
  have "rec_mimeType (recorders s2 ! length (recorders s))
        = rec_mimeType (recorders s1 ! length (recorders s))"
    using r by (simp add: s2_def recs)
  then have mt: "rec_mimeType (recorders s2 ! length (recorders s)) = mt"
    by (simp add: recs)
  have b3: "videoBlob s3 = Some (new_Blob (recordedChunksRef s2) (split_first mt))"
    by (simp add: s3_def onstop_def len mt Let_def)
  have sz: "blob_size (new_Blob (recordedChunksRef s2) (split_first mt))
        = sum_list (map blob_size (delivered es))"
    unfolding c2 by (simp only: blob_size_new_Blob sum_nonempty)
  show ?thesis
    using m1 pre c2 c2' b3 sz by simp
qed

theorem recording_session_artifact_witness:
  "videoRef initial_state \<noteq> None
   \<and> blob_size seg_a = 4096 \<and> blob_size seg_b = 8192
   \<and> undisturbed (DataAvailable 0 seg_a) \<and> undisturbed (StartStream Granted)
   \<and> undisturbed StopRecording \<and> undisturbed (DataAvailable 0 seg_b)
   \<and> videoBlob (onstop 0 (run (startRecording Granted (Started ''video/webm; codecs=vp8'') initial_state)
        [DataAvailable 0 seg_a, StartStream Granted, StopRecording, DataAvailable 0 seg_b]))
       = Some \<lparr>blob_bytes = replicate 4096 0 @ replicate 8192 1, blob_type = ''video/webm''\<rparr>
   \<and> map_option blob_size
        (videoBlob (onstop 0 (run (startRecording Granted (Started ''video/webm; codecs=vp8'') initial_state)
           [DataAvailable 0 seg_a, StartStream Granted, StopRecording, DataAvailable 0 seg_b])))
       = Some 12288"
proof -
  have h: "current_stream initial_state \<noteq> None \<or> (Granted = Granted \<and> videoRef initial_state \<noteq> None)"
    by (simp add: initial_state_def)
  have u: "\<forall>e \<in> set [DataAvailable 0 seg_a, StartStream Granted, StopRecording, DataAvailable 0 seg_b].
             undisturbed e"
    by simp
  have l: "length (recorders initial_state) = 0"
    by (simp add: initial_state_def)
  have a: "\<forall>b \<in> set (delivered
             [DataAvailable 0 seg_a, StartStream Granted, StopRecording, DataAvailable 0 seg_b]).
             blob_size b > 0"
    by (simp add: seg_a_def seg_b_def blob_size_def)
  from recording_session_artifact
         [where s = initial_state and g = Granted and mt = "''video/webm; codecs=vp8''"
            and es = "[DataAvailable 0 seg_a, StartStream Granted, StopRecording, DataAvailable 0 seg_b]",
          OF h u] a
  show ?thesis
    unfolding l
    by (simp add: new_Blob_def split_first_def seg_a_def seg_b_def blob_size_def initial_state_def)
qed

text \<open>
  Against the claim as it is written: the session of the example's first recorder gets
  two segments, of 4096 and of 8192 bytes, between its start and its stop event. A second
  call of \<^verbatim>\<open>startRecording\<close> between the two empties the buffer they share. When the
  second recorder is stopped, its stop event builds an artifact and ends the tracks of the
  stream; the stop event of the first recorder follows and builds an artifact of 8192
  bytes.
\<close>

theorem recording_session_artifact_counterexample:
  "mediaRecorderRef recording_example = Some 0
   \<and> blob_size seg_a + blob_size seg_b = 12288
   \<and> live_recorder
        (run recording_example
           [DataAvailable 0 seg_a, StartRecording Granted (Started ''video/webm; codecs=vp8'')]) 0
   \<and> live_recorder
        (run recording_example
           [DataAvailable 0 seg_a, StartRecording Granted (Started ''video/webm; codecs=vp8''),
            DataAvailable 0 seg_b, StopRecording, RecorderStop 1]) 0
   \<and> videoBlob
        (run recording_example
           [DataAvailable 0 seg_a, StartRecording Granted (Started ''video/webm; codecs=vp8''),
            DataAvailable 0 seg_b, StopRecording, RecorderStop 1])
       = Some \<lparr>blob_bytes = replicate 8192 1, blob_type = ''video/webm''\<rparr>
   \<and> map_option blob_size
        (videoBlob
           (run recording_example
              [DataAvailable 0 seg_a, StartRecording Granted (Started ''video/webm; codecs=vp8''),
               DataAvailable 0 seg_b, StopRecording, RecorderStop 1, RecorderStop 0]))
       = Some 8192"
  by (simp add: recording_example_eq handler_defs live_recorder_def seg_a_def seg_b_def
      blob_size_def megabytes_toFixed2_def digit_def decimal.simps Let_def)

text \<open>
  C6. \<^verbatim>\<open>handleUpload\<close> without an artifact issues no storage call and changes nothing
  but the status message, whatever the storage and the camera would have answered.
\<close>

theorem handleUpload_without_artifact:
  assumes "videoBlob s = None"
  shows "handleUpload_begin uuid s = (None, s\<lparr>statusMessage := ''No video to upload.''\<rparr>)
       \<and> handleUpload getPublicUrl uuid out g s = s\<lparr>statusMessage := ''No video to upload.''\<rparr>
       \<and> uploading (handleUpload getPublicUrl uuid out g s) = uploading s
       \<and> videoBlob (handleUpload getPublicUrl uuid out g s) = videoBlob s
       \<and> isRecording (handleUpload getPublicUrl uuid out g s) = isRecording s"
  using assms by (simp add: handleUpload_begin_def handleUpload_def)

theorem handleUpload_without_artifact_witness:
  "videoBlob recording_example = None
   \<and> fst (handleUpload_begin ''0b7e'' recording_example) = None
   \<and> handleUpload (\<lambda>b p. b @ p) ''0b7e'' (Resolved None) Granted recording_example
       = recording_example\<lparr>statusMessage := ''No video to upload.''\<rparr>"
proof -
  have h: "videoBlob recording_example = None"
    by (simp add: recording_example_eq)
  from handleUpload_without_artifact [OF h, of "''0b7e''" "\<lambda>b p. b @ p" "Resolved None" Granted] h
  show ?thesis by simp
qed

text \<open>
  C7. \<^verbatim>\<open>stopRecording\<close> outside the Recording state returns the state it was given:
  no field changes, and no recorder is stopped.
\<close>

theorem stopRecording_outside_recording:
  "\<not> in_state Recording s \<Longrightarrow> stopRecording s = s"
  by (simp add: stopRecording_def split: option.splits)

theorem stopRecording_outside_recording_witness:
  "mediaRecorderRef recorded_example = Some 0 \<and> \<not> in_state Recording recorded_example
   \<and> stopRecording recorded_example = recorded_example"
proof -
  have h: "\<not> in_state Recording recorded_example"
    by (simp add: recorded_example_eq)
  from stopRecording_outside_recording [OF h] h show ?thesis
    by (simp add: recorded_example_eq)
qed



text \<open>
  C5. For an artifact \<open>vb\<close>, \<^verbatim>\<open>handleUpload\<close> names the object by the random
  identifier, a dot and the extension (webm when the artifact's type contains
  \<^verbatim>\<open>webm\<close>, mp4 otherwise), and issues one write of the artifact to the container
  \<^verbatim>\<open>videos\<close> under \<^verbatim>\<open>public_videos/\<close> and that name, with upsert false. When
  the write succeeds, the handler sets the status to the name and the public URL that
  the storage client resolves for the path it wrote, in that container, clears the
  artifact and the uploading flag, and ends with its call of \<^verbatim>\<open>startStream\<close> on
  that state.
\<close>

theorem upload_request:
  fixes s :: state and vb :: blob and uuid :: string and g :: gum_outcome
    and getPublicUrl :: "string \<Rightarrow> string \<Rightarrow> string"
  assumes "videoBlob s = Some vb"
  defines "fileName \<equiv> uuid @ ''.'' @ (if sublist ''webm'' (blob_type vb) then ''webm'' else ''mp4'')"
  defines "filePath \<equiv> ''public_videos/'' @ fileName"
  defines "written \<equiv>
     s\<lparr>statusMessage :=
         ''Upload successful! File: '' @ fileName @ ''. Public URL: '' @ getPublicUrl ''videos'' filePath,
       videoBlob := None, uploading := False\<rparr>"
  shows "fst (handleUpload_begin uuid s)
           = Some (fileName, \<lparr>up_bucket = ''videos'', up_path = filePath, up_body = vb,
                              up_cacheControl = ''3600'', up_upsert = False\<rparr>)
       \<and> handleUpload_finish getPublicUrl fileName filePath (Resolved None)
            (snd (handleUpload_begin uuid s)) = written
       \<and> handleUpload getPublicUrl uuid (Resolved None) g s = snd (startStream g written)"
proof -
  have b: "fst (handleUpload_begin uuid s)
           = Some (fileName, \<lparr>up_bucket = ''videos'', up_path = filePath, up_body = vb,
                              up_cacheControl = ''3600'', up_upsert = False\<rparr>)"
    using assms(1)
    by (simp add: handleUpload_begin_def Let_def str_includes_sublist fileName_def filePath_def)
  have f: "handleUpload_finish getPublicUrl fileName filePath (Resolved None)
            (snd (handleUpload_begin uuid s)) = written"
    using assms(1)
    by (simp add: handleUpload_begin_def handleUpload_finish_def Let_def written_def)
  have h: "handleUpload getPublicUrl uuid (Resolved None) g s = snd (startStream g written)"
    using handleUpload_success [OF assms(1), of getPublicUrl uuid g]
    by (simp add: written_def fileName_def filePath_def str_includes_sublist)
  from b f h show ?thesis by simp
qed

theorem upload_request_witness:
  "videoBlob recorded_example \<noteq> None
   \<and> fst (handleUpload_begin ''0b7e'' recorded_example)
       = Some (''0b7e.webm'',
               \<lparr>up_bucket = ''videos'', up_path = ''public_videos/0b7e.webm'',
                up_body = \<lparr>blob_bytes = replicate 4096 0 @ replicate 8192 1, blob_type = ''video/webm''\<rparr>,
                up_cacheControl = ''3600'', up_upsert = False\<rparr>)
   \<and> handleUpload (\<lambda>b p. ''https://store/'' @ b @ ''/'' @ p) ''0b7e'' (Resolved None) Denied
        recorded_example
       = snd (startStream Denied
           (recorded_example
              \<lparr>statusMessage :=
                 ''Upload successful! File: 0b7e.webm. Public URL: https://store/videos/public_videos/0b7e.webm'',
               videoBlob := None, uploading := False\<rparr>))"
proof -
  have h: "videoBlob recorded_example
             = Some \<lparr>blob_bytes = replicate 4096 0 @ replicate 8192 1, blob_type = ''video/webm''\<rparr>"
    by (simp add: recorded_example_eq)
  have w: "sublist ''webm'' ''video/webm''"
    by (simp add: str_includes_sublist [symmetric])
  from upload_request
         [OF h, where uuid = "''0b7e''" and g = Denied
            and getPublicUrl = "\<lambda>b p. ''https://store/'' @ b @ ''/'' @ p"] h w
  show ?thesis by simp
qed




text \<open>
  C9. The storage client module throws its own error at load time exactly when one of the
  two configuration values is undefined or the empty string, whatever the constructor
  would do: it is not called. When both values are present and not empty, the module
  calls the constructor on them, and the load gives the client, or the error, that the
  constructor gives.
\<close>

theorem startup_configuration:
  "(falsy supabaseUrl \<or> falsy supabaseAnonKey \<longrightarrow>
      supabase createClient supabaseUrl supabaseAnonKey
        = Inl (StartupError ''Missing Supabase URL or Anon Key environment variables''))
   \<and> (supabaseUrl = None \<or> supabaseAnonKey = None \<longrightarrow>
        isl (supabase createClient supabaseUrl supabaseAnonKey))
   \<and> (\<forall>u k. supabaseUrl = Some u \<and> supabaseAnonKey = Some k \<and> u \<noteq> [] \<and> k \<noteq> [] \<longrightarrow>
        supabase createClient supabaseUrl supabaseAnonKey = createClient u k)
   \<and> (\<forall>u k. supabaseUrl = Some u \<and> supabaseAnonKey = Some k \<and> (u = [] \<or> k = []) \<longrightarrow>
        supabase createClient supabaseUrl supabaseAnonKey
          = Inl (StartupError ''Missing Supabase URL or Anon Key environment variables''))"
  by (auto simp: supabase_def falsy_def split: option.splits)

text \<open>
  Against the claim as it is written, with both values present: an empty endpoint makes
  the module throw even with a constructor that takes everything, and an endpoint that the
  constructor does not take makes the load end in the constructor's error.
\<close>

theorem startup_configuration_counterexample:
  "Some '''' \<noteq> (None :: string option) \<and> Some ''anon-key'' \<noteq> (None :: string option)
   \<and> supabase any_createClient (Some '''') (Some ''anon-key'')
       = Inl (StartupError ''Missing Supabase URL or Anon Key environment variables'')
   \<and> Some ''not-a-url'' \<noteq> (None :: string option)
   \<and> supabase http_createClient (Some ''not-a-url'') (Some ''anon-key'')
       = Inl (StartupError ''Invalid supabaseUrl'')"
  by (simp add: supabase_def falsy_def any_createClient_def http_createClient_def)

theorem startup_configuration_witness:
  "falsy None
   \<and> supabase http_createClient None (Some ''anon-key'')
       = Inl (StartupError ''Missing Supabase URL or Anon Key environment variables'')
   \<and> supabase http_createClient (Some ''https://project.supabase.co'') (Some ''anon-key'')
       = Inr (''https://project.supabase.co'', ''anon-key'')
   \<and> supabase http_createClient (Some ''not-a-url'') (Some ''anon-key'')
       = http_createClient ''not-a-url'' ''anon-key''
   \<and> supabase http_createClient (Some ''https://project.supabase.co'') (Some [])
       = Inl (StartupError ''Missing Supabase URL or Anon Key environment variables'')"
  using startup_configuration [of None "Some ''anon-key''" http_createClient]
    startup_configuration
      [of "Some ''https://project.supabase.co''" "Some ''anon-key''" http_createClient]
    startup_configuration [of "Some ''not-a-url''" "Some ''anon-key''" http_createClient]
    startup_configuration [of "Some ''https://project.supabase.co''" "Some []" http_createClient]
  by (simp add: falsy_def http_createClient_def)

text \<open>
  C3. \<^verbatim>\<open>startRecording\<close> does not look at the recording flag. In every run in which it
  is invoked, and resumed after its await, only while the controller is not Recording, at
  most one recorder is between its start and its stop event. Invoked on a state that
  holds a stream, Recording or not, a call whose recorder starts adds a recorder to those
  already active, makes it the current one and empties the segment buffer; the recorders
  that existed stay as they were.
\<close>

theorem single_session_guarded:
  fixes s :: state and es :: "event list" and g :: gum_outcome and mt :: string
  shows "(admissible (\<lambda>s. \<not> in_state Recording s) initial_state es \<longrightarrow>
            active_recorders (run initial_state es) \<le> 1)
       \<and> (current_stream s \<noteq> None \<longrightarrow>
            mediaRecorderRef (startRecording g (Started mt) s) = Some (length (recorders s))
          \<and> take (length (recorders s)) (recorders (startRecording g (Started mt) s)) = recorders s
          \<and> recordedChunksRef (startRecording g (Started mt) s) = []
          \<and> active_recorders (startRecording g (Started mt) s) = Suc (active_recorders s))"
proof (intro conjI impI)
  assume "admissible (\<lambda>s. \<not> in_state Recording s) initial_state es"
  then have "admissible (\<lambda>s. \<not> isRecording s) initial_state es" by simp
  from one_session_run [OF one_session_initial this]
  show "active_recorders (run initial_state es) \<le> 1"
    by (rule one_session_active)
next
  assume a: "current_stream s \<noteq> None"
  then have b: "current_stream s \<noteq> None \<or> (g = Granted \<and> videoRef s \<noteq> None)" by simp
  note st = startRecording_started [OF b, of mt]
  show "mediaRecorderRef (startRecording g (Started mt) s) = Some (length (recorders s))"
    and "recordedChunksRef (startRecording g (Started mt) s) = []"
    by (simp_all add: st)
  from st(1) show "take (length (recorders s)) (recorders (startRecording g (Started mt) s)) = recorders s"
    by auto
  show "active_recorders (startRecording g (Started mt) s) = Suc (active_recorders s)"
    by (rule active_recorders_start [OF b])
qed

theorem single_session_guarded_witness:
  "admissible (\<lambda>s. \<not> in_state Recording s) initial_state
     [StartStream Granted, StartRecording Granted (Started ''video/webm; codecs=vp8''),
      DataAvailable 0 seg_a, StopRecording, RecorderStop 0,
      StartRecording Granted StartThrows]
   \<and> active_recorders (run initial_state
     [StartStream Granted, StartRecording Granted (Started ''video/webm; codecs=vp8''),
      DataAvailable 0 seg_a, StopRecording, RecorderStop 0,
      StartRecording Granted StartThrows]) \<le> 1
   \<and> current_stream recording_example \<noteq> None
   \<and> active_recorders (startRecording Granted (Started ''video/webm; codecs=vp8'') recording_example)
       = Suc (active_recorders recording_example)"
proof -
  have a: "admissible (\<lambda>s. \<not> in_state Recording s) initial_state
     [StartStream Granted, StartRecording Granted (Started ''video/webm; codecs=vp8''),
      DataAvailable 0 seg_a, StopRecording, RecorderStop 0,
      StartRecording Granted StartThrows]"
    by (simp add: initial_state_def handler_defs live_recorder_def seg_a_def blob_size_def Let_def
        megabytes_toFixed2_def digit_def decimal.simps)
  have c: "current_stream recording_example \<noteq> None"
    by (simp add: recording_example_eq current_stream_def)
  from single_session_guarded
         [where es = "[StartStream Granted, StartRecording Granted (Started ''video/webm; codecs=vp8''),
                       DataAvailable 0 seg_a, StopRecording, RecorderStop 0,
                       StartRecording Granted StartThrows]"
            and s = recording_example and g = Granted and mt = "''video/webm; codecs=vp8''"] a c
  show ?thesis by simp
qed

text \<open>
  Against the claim as it is written: on the recording state of the example a second call
  is not rejected; it starts a second recorder beside the first and replaces the ref.
\<close>

theorem single_session_counterexample:
  "in_state Recording recording_example
   \<and> active_recorders recording_example = 1
   \<and> mediaRecorderRef recording_example = Some 0
   \<and> mediaRecorderRef (startRecording Granted (Started ''video/webm; codecs=vp8'') recording_example) = Some 1
   \<and> active_recorders (startRecording Granted (Started ''video/webm; codecs=vp8'') recording_example) = 2
   \<and> startRecording Granted (Started ''video/webm; codecs=vp8'') recording_example \<noteq> recording_example"
  by (simp add: recording_example_eq startRecording_def begin_recording_def current_stream_def
      active_recorders_def)

text \<open>
  C4. The invariant: Recorded and Uploading imply an artifact, Recording implies an active
  session and no artifact. It holds in every state of a run in which \<^verbatim>\<open>startRecording\<close>
  is invoked, and resumed after its await, only while no upload is in flight. In every
  run whatsoever, Recording implies an active session and no artifact, and Recorded, or
  Uploading without Recording, implies an artifact. The stop event, \<^verbatim>\<open>stopRecording\<close>
  and \<^verbatim>\<open>handleUpload\<close> (its two halves and the whole) preserve the invariant from any
  state; \<^verbatim>\<open>startRecording\<close>, and its continuation after the await, from any state that
  is not Uploading.
\<close>

theorem artifact_invariant_guarded:
  fixes s :: state and es :: "event list" and g :: gum_outcome and ro :: recorder_outcome
    and out :: upload_outcome and getPublicUrl :: "string \<Rightarrow> string \<Rightarrow> string"
    and uuid fileName filePath :: string and rid :: nat
  shows "(admissible (\<lambda>s. \<not> in_state Uploading s) initial_state es \<longrightarrow>
            artifact_invariant (run initial_state es))
       \<and> (in_state Recording (run initial_state es) \<longrightarrow>
            active_session (run initial_state es) \<and> videoBlob (run initial_state es) = None)
       \<and> (in_state Recorded (run initial_state es) \<or>
            in_state Uploading (run initial_state es) \<and> \<not> in_state Recording (run initial_state es) \<longrightarrow>
            videoBlob (run initial_state es) \<noteq> None)
       \<and> (artifact_invariant s \<longrightarrow>
            artifact_invariant (onstop rid s)
          \<and> artifact_invariant (stopRecording s)
          \<and> artifact_invariant (snd (handleUpload_begin uuid s))
          \<and> artifact_invariant (handleUpload_finish getPublicUrl fileName filePath out s)
          \<and> artifact_invariant (handleUpload getPublicUrl uuid out g s)
          \<and> artifact_invariant (startRecording_await s)
          \<and> (\<not> in_state Uploading s \<longrightarrow>
                artifact_invariant (startRecording g ro s)
              \<and> artifact_invariant (startRecording_resume g ro s)))"
proof (intro conjI impI)
  assume "admissible (\<lambda>s. \<not> in_state Uploading s) initial_state es"
  then have "admissible (\<lambda>s. \<not> uploading s) initial_state es" by simp
  with invariants_initial(1) show "artifact_invariant (run initial_state es)"
    by (rule artifact_invariant_run)
next
  note ri = recording_invariant_run [OF invariants_initial(2), of es]
  {
    assume "in_state Recording (run initial_state es)"
    with ri show "active_session (run initial_state es)" "videoBlob (run initial_state es) = None"
      by (simp_all add: recording_invariant_def)
  }
  {
    assume "in_state Recorded (run initial_state es) \<or>
            in_state Uploading (run initial_state es) \<and> \<not> in_state Recording (run initial_state es)"
    with ri show "videoBlob (run initial_state es) \<noteq> None"
      by (auto simp: recording_invariant_def)
  }
next
  assume a: "artifact_invariant s"
  show "artifact_invariant (onstop rid s)"
    by (rule artifact_invariant_onstop [OF a])
  show "artifact_invariant (stopRecording s)"
    by (rule artifact_invariant_stopRecording [OF a])
  show "artifact_invariant (snd (handleUpload_begin uuid s))"
    by (rule artifact_invariant_begin [OF a])
  show "artifact_invariant (handleUpload_finish getPublicUrl fileName filePath out s)"
    by (rule artifact_invariant_finish [OF a])
  show "artifact_invariant (handleUpload getPublicUrl uuid out g s)"
    by (rule artifact_invariant_handleUpload [OF a])
  show "artifact_invariant (startRecording_await s)"
    by (rule artifact_invariant_await [OF a])
  {
    assume "\<not> in_state Uploading s"
    then have u: "\<not> uploading s" by simp
    show "artifact_invariant (startRecording g ro s)"
      by (rule artifact_invariant_startRecording [OF a u])
    show "artifact_invariant (startRecording_resume g ro s)"
      by (rule artifact_invariant_resume [OF a u])
  }
qed

theorem artifact_invariant_guarded_witness:
  "admissible (\<lambda>s. \<not> in_state Uploading s) initial_state
     [StartStream Granted, StartRecording Granted (Started ''video/webm; codecs=vp8''),
      DataAvailable 0 seg_a, StopRecording, RecorderStop 0, UploadBegin ''0b7e'']
   \<and> in_state Uploading (run initial_state
     [StartStream Granted, StartRecording Granted (Started ''video/webm; codecs=vp8''),
      DataAvailable 0 seg_a, StopRecording, RecorderStop 0, UploadBegin ''0b7e''])
   \<and> artifact_invariant (run initial_state
     [StartStream Granted, StartRecording Granted (Started ''video/webm; codecs=vp8''),
      DataAvailable 0 seg_a, StopRecording, RecorderStop 0, UploadBegin ''0b7e''])
   \<and> artifact_invariant rerecord_example
   \<and> \<not> in_state Uploading rerecord_example
   \<and> artifact_invariant (startRecording Granted (Started ''video/webm; codecs=vp8'') rerecord_example)
   \<and> artifact_invariant (handleUpload append ''0b7e'' (Resolved None) Granted rerecord_example)
   \<and> in_state Recording (run initial_state
     [StartStream Granted, StartRecording Granted (Started ''video/webm; codecs=vp8'')])
   \<and> active_session (run initial_state
     [StartStream Granted, StartRecording Granted (Started ''video/webm; codecs=vp8'')])"
proof -
  have a: "admissible (\<lambda>s. \<not> in_state Uploading s) initial_state
     [StartStream Granted, StartRecording Granted (Started ''video/webm; codecs=vp8''),
      DataAvailable 0 seg_a, StopRecording, RecorderStop 0, UploadBegin ''0b7e'']"
    and u: "in_state Uploading (run initial_state
     [StartStream Granted, StartRecording Granted (Started ''video/webm; codecs=vp8''),
      DataAvailable 0 seg_a, StopRecording, RecorderStop 0, UploadBegin ''0b7e''])"
    by (simp_all add: initial_state_def handler_defs live_recorder_def seg_a_def blob_size_def Let_def
        megabytes_toFixed2_def digit_def decimal.simps)
  have i: "artifact_invariant rerecord_example" and n: "\<not> in_state Uploading rerecord_example"
    by (simp_all add: rerecord_example_eq artifact_invariant_def)
  have r: "in_state Recording (run initial_state
     [StartStream Granted, StartRecording Granted (Started ''video/webm; codecs=vp8'')])"
    using recording_example_eq by (simp add: recording_example_def)
  from artifact_invariant_guarded
         [where es = "[StartStream Granted, StartRecording Granted (Started ''video/webm; codecs=vp8''),
                       DataAvailable 0 seg_a, StopRecording, RecorderStop 0, UploadBegin ''0b7e'']"
            and s = rerecord_example and g = Granted and ro = "Started ''video/webm; codecs=vp8''"
            and getPublicUrl = append and uuid = "''0b7e''" and out = "Resolved None"]
    artifact_invariant_guarded
         [where es = "[StartStream Granted, StartRecording Granted (Started ''video/webm; codecs=vp8'')]"]
    a u i n r
  show ?thesis by simp
qed

text \<open>
  Against the claim as it is written, with every click made on an enabled Start button: in
  the run of the example the first call of \<^verbatim>\<open>startRecording\<close> is still suspended when
  the upload begins. The state then satisfies the invariant. When the call resumes, its
  stream request granted and its recorder started, it clears the artifact and leaves the
  uploading flag set.
\<close>

theorem artifact_invariant_counterexample:
  "admissible start_button initial_state uploading_run
   \<and> artifact_invariant (run initial_state uploading_run)
   \<and> in_state Uploading
        (run initial_state
           (uploading_run @ [StartRecordingResume Granted (Started ''video/webm; codecs=vp8'')]))
   \<and> videoBlob
        (run initial_state
           (uploading_run @ [StartRecordingResume Granted (Started ''video/webm; codecs=vp8'')]))
       = None
   \<and> \<not> artifact_invariant
        (run initial_state
           (uploading_run @ [StartRecordingResume Granted (Started ''video/webm; codecs=vp8'')]))"
proof -
  have r: "run initial_state
             (uploading_run @ [StartRecordingResume Granted (Started ''video/webm; codecs=vp8'')])
           = startRecording_resume Granted (Started ''video/webm; codecs=vp8'') uploading_example"
    by (simp add: uploading_example_def uploading_run_def)
  have e: "run initial_state uploading_run = uploading_example"
    by (simp add: uploading_example_def)
  show ?thesis
    unfolding r e
    by (simp add: uploading_run_admissible uploading_example_eq artifact_invariant_def
        startRecording_resume_def startStream_def begin_recording_def Let_def)
qed

text \<open>
  C10. A call of \<^verbatim>\<open>startRecording\<close> that gets a stream and whose recorder starts
  clears the artifact and empties the buffer, so that the artifact of the next stop event
  consists of the non-empty segments delivered since that call and of nothing older. When
  the recorder is constructed and its \<^verbatim>\<open>start\<close> throws, the buffer is emptied and the
  artifact is kept; when the constructor throws, both are kept.
\<close>

theorem startRecording_resets:
  fixes s :: state and g :: gum_outcome and mt :: string and segs :: "blob list"
  assumes "current_stream s \<noteq> None \<or> (g = Granted \<and> videoRef s \<noteq> None)"
  defines "s1 \<equiv> startRecording g (Started mt) s"
  shows "videoBlob s1 = None \<and> recordedChunksRef s1 = []
       \<and> videoBlob (onstop (length (recorders s)) (deliver segs s1))
           = Some (new_Blob (filter (\<lambda>b. blob_size b > 0) segs) (split_first mt))
       \<and> recordedChunksRef (startRecording g StartThrows s) = []
       \<and> videoBlob (startRecording g StartThrows s) = videoBlob s
       \<and> recordedChunksRef (startRecording g ConstructorThrows s) = recordedChunksRef s
       \<and> videoBlob (startRecording g ConstructorThrows s) = videoBlob s"
proof -
  note st = startRecording_started [OF assms(1), of mt]
  from st(1) obtain sid where
    recs: "recorders s1 = recorders s @ [\<lparr>rec_stream = sid, rec_mimeType = mt, rec_phase = Active\<rparr>]"
    unfolding s1_def by blast
  have b1: "videoBlob s1 = None" and c1: "recordedChunksRef s1 = []"
    using st by (simp_all add: s1_def)
  have b2: "videoBlob (onstop (length (recorders s)) (deliver segs s1))
           = Some (new_Blob (filter (\<lambda>b. blob_size b > 0) segs) (split_first mt))"
    by (simp add: onstop_def deliver_eq recs c1 Let_def)
  have t: "recordedChunksRef (startRecording g StartThrows s) = []"
    "videoBlob (startRecording g StartThrows s) = videoBlob s"
    using assms(1)
    by (auto simp: startRecording_def startRecording_await_def startRecording_resume_def
        begin_recording_def startStream_def current_stream_def Let_def
        split: option.splits)
  have c: "recordedChunksRef (startRecording g ConstructorThrows s) = recordedChunksRef s"
    "videoBlob (startRecording g ConstructorThrows s) = videoBlob s"
    by (auto simp: startRecording_def startRecording_await_def startRecording_resume_def
        begin_recording_def startStream_def Let_def
        split: option.splits gum_outcome.splits)
  from b1 c1 b2 t c show ?thesis by simp
qed

theorem startRecording_resets_witness:
  "live_stream rerecord_example
   \<and> videoBlob rerecord_example
       = Some \<lparr>blob_bytes = replicate 4096 0, blob_type = ''video/webm''\<rparr>
   \<and> recordedChunksRef rerecord_example = [seg_a]
   \<and> videoBlob (startRecording Granted (Started ''video/webm; codecs=vp8'') rerecord_example) = None
   \<and> recordedChunksRef (startRecording Granted (Started ''video/webm; codecs=vp8'') rerecord_example) = []
   \<and> videoBlob (onstop 1 (deliver [seg_b]
        (startRecording Granted (Started ''video/webm; codecs=vp8'') rerecord_example)))
       = Some \<lparr>blob_bytes = replicate 8192 1, blob_type = ''video/webm''\<rparr>"
proof -
  have h: "current_stream rerecord_example \<noteq> None \<or> (Granted = Granted \<and> videoRef rerecord_example \<noteq> None)"
    and l: "length (recorders rerecord_example) = 1"
    and b: "live_stream rerecord_example"
      "videoBlob rerecord_example
         = Some \<lparr>blob_bytes = replicate 4096 0, blob_type = ''video/webm''\<rparr>"
      "recordedChunksRef rerecord_example = [seg_a]"
    by (simp_all add: rerecord_example_eq current_stream_def live_stream_def)
  from startRecording_resets
         [OF h, where segs = "[seg_b]" and mt = "''video/webm; codecs=vp8''"] b
  show ?thesis
    unfolding l by (simp add: new_Blob_def split_first_def seg_b_def blob_size_def)
qed

text \<open>
  Against the claim as it is written: in the Recorded state of the example the recorder
  is constructed and its \<^verbatim>\<open>start\<close> throws, and the artifact is still there; and a
  start during a recording leaves the first recorder live, whose next segment is part of
  the artifact that the second recorder's stop event builds.
\<close>

theorem startRecording_resets_counterexample:
  "videoBlob recorded_example
     = Some \<lparr>blob_bytes = replicate 4096 0 @ replicate 8192 1, blob_type = ''video/webm''\<rparr>
   \<and> videoBlob (startRecording Granted StartThrows recorded_example) = videoBlob recorded_example
   \<and> recordedChunksRef (startRecording Granted StartThrows recorded_example) = []
   \<and> live_recorder (startRecording Granted (Started ''video/webm; codecs=vp8'') recording_example) 0
   \<and> videoBlob (run recording_example
        [StartRecording Granted (Started ''video/webm; codecs=vp8''),
         DataAvailable 0 seg_a, DataAvailable 1 seg_b, StopRecording, RecorderStop 1])
       = Some \<lparr>blob_bytes = replicate 4096 0 @ replicate 8192 1, blob_type = ''video/webm''\<rparr>"
  by (simp add: recorded_example_eq recording_example_eq handler_defs live_recorder_def
      seg_a_def seg_b_def blob_size_def Let_def)

end
